theory Spec2Isabelle
  imports Complex_Main
begin

section \<open>Errors\<close>

text \<open>
  The source throws plain \<^verbatim>\<open>Error\<close> objects that differ only in their message. Each
  \<^verbatim>\<open>throw\<close> site is one constructor here, named after the specification's taxonomy:
  \<^item> \<open>InvalidArgument\<close>: \<^verbatim>\<open>'Cannot set negative volume'\<close> (VolumeNodes.setVolume) and
    \<^verbatim>\<open>'Channel name cannot be blank'\<close> (Channels.createChannel);
  \<^item> \<open>DuplicateChannel\<close>: \<^verbatim>\<open>`Channel with name '${name}' already exists`\<close>;
  \<^item> \<open>ChannelNotFound\<close>: \<^verbatim>\<open>`Channel '${channel}' does not exist`\<close>;
  \<^item> \<open>SampleNotFound\<close>: \<^verbatim>\<open>`Cannot find sound: '${name}`\<close>;
  \<^item> \<open>NotRegistered\<close>: \<^verbatim>\<open>`Trying to remove a playing sound that is not listed: ...`\<close>.
  \<open>TypeError\<close> is not thrown by the source itself: the setter of an audio parameter's
  \<^verbatim>\<open>value\<close> throws it for a number outside the single-precision range.
  A method that can throw returns a pair: \<open>Inl e\<close> for the exception (\<open>Inr v\<close> for the
  returned value), and the object's state at the moment the method is left.
\<close>

datatype error =
    InvalidArgument
  | DuplicateChannel
  | ChannelNotFound
  | SampleNotFound
  | NotRegistered
  | TypeError

section \<open>The value of an audio parameter\<close>

text \<open>
  \<^verbatim>\<open>gain.value\<close> of a \<^verbatim>\<open>GainNode\<close> is an \<^verbatim>\<open>AudioParam\<close> value, a single-precision
  float. An assignment \<^verbatim>\<open>gain.value = x\<close> stores the single-precision number nearest to
  \<open>x\<close>, a tie going to the even significand, and throws a \<^verbatim>\<open>TypeError\<close> when that number
  would be \<open>2^128\<close> or beyond; a read gives the stored number. JavaScript numbers are
  taken as reals (\<^verbatim>\<open>NaN\<close> and the infinities are outside the model).

  \<open>roundHalfEven\<close> is the nearest integer, ties to even. \<open>binade n a\<close> is the exponent
  \<open>e\<close> with \<open>2^e \<le> a < 2^(e+1)\<close>, looked for from \<open>n - 126\<close> downwards and never below
  \<open>-126\<close>, the exponent the subnormal numbers share with the lowest normal ones; the
  single-precision numbers of that exponent are \<open>2^(e-23)\<close> apart. \<open>toFloat32 x\<close> is the
  number stored for \<open>x\<close>, or \<open>None\<close> for the \<^verbatim>\<open>TypeError\<close>.
\<close>

definition roundHalfEven :: "real \<Rightarrow> int" where
  "roundHalfEven q =
     (let f = \<lfloor>q\<rfloor>; d = q - of_int f in
      if d < 1 / 2 then f
      else if 1 / 2 < d then f + 1
      else if even f then f else f + 1)"

fun binade :: "nat \<Rightarrow> real \<Rightarrow> int" where
  "binade 0 a = - 126"
| "binade (Suc n) a =
     (if 2 powi (int (Suc n) - 126) \<le> a then int (Suc n) - 126 else binade n a)"

definition toFloat32 :: "real \<Rightarrow> real option" where
  "toFloat32 x =
     (let e = binade 253 \<bar>x\<bar>;
          y = of_int (roundHalfEven (\<bar>x\<bar> / 2 powi (e - 23))) * 2 powi (e - 23)
      in if 2 powi 128 \<le> y then None else Some (sgn x * y))"

section \<open>VolumeNodes\<close>

text \<open>
  The fields of \<^verbatim>\<open>class VolumeNodes\<close> that the volume methods read and write:
  \<open>volumeGain\<close> is \<^verbatim>\<open>this.volumeGainNode.gain.value\<close>, \<open>fadeGain\<close> is
  \<^verbatim>\<open>this.fadeGainNode.gain.value\<close>, both written through \<open>toFloat32\<close>.

  \<^verbatim>\<open>this.eventDispatcher.dispatchEvent\<close> runs its listeners synchronously, inside the
  call. \<open>dispatched\<close> is the log of that collaborator: one entry per
  \<^verbatim>\<open>VOLUME_CHANGE\<close> event, holding the value of \<^verbatim>\<open>getVolume()\<close> and of the field
  \<^verbatim>\<open>volumeValueBeforeMute\<close> at the moment the event is dispatched, which is what a
  listener finds when it asks the event's target for its volume.
\<close>

record VolumeChangeEvent =
  seenVolume :: real
  seenValueBeforeMute :: "real option"

record VolumeNodes =
  volumeGain :: real
  fadeGain :: real
  volumeValueBeforeMute :: "real option"
  dispatched :: "VolumeChangeEvent list"

definition getFadeVolume :: "VolumeNodes \<Rightarrow> real" where
  "getFadeVolume vn = fadeGain vn"

definition getVolume :: "VolumeNodes \<Rightarrow> real" where
  "getVolume vn = volumeGain vn"

definition dispatchVolumeChange :: "VolumeNodes \<Rightarrow> VolumeNodes" where
  "dispatchVolumeChange vn =
     vn\<lparr>dispatched := dispatched vn @
       [\<lparr>seenVolume = getVolume vn, seenValueBeforeMute = volumeValueBeforeMute vn\<rparr>]\<rparr>"

text \<open>
  \<^verbatim>\<open>setVolume(value)\<close>, statement by statement: the negative check, the early return on a
  value equal to the one read from the gain, the assignment of \<^verbatim>\<open>volumeValueBeforeMute\<close>,
  then \<^verbatim>\<open>this.dispatchVolumeChange()\<close> and only after it the assignment of the gain,
  which rounds the value or throws.
\<close>

definition setVolume :: "real \<Rightarrow> VolumeNodes \<Rightarrow> (error + unit) \<times> VolumeNodes" where
  "setVolume val vn =
     (if val < 0 then (Inl InvalidArgument, vn)
      else if val = volumeGain vn then (Inr (), vn)
      else
        let vn1 = (if val = 0 then vn\<lparr>volumeValueBeforeMute := Some 1\<rparr>
                   else vn\<lparr>volumeValueBeforeMute := None\<rparr>);
            vn2 = dispatchVolumeChange vn1
        in (case toFloat32 val of
              None \<Rightarrow> (Inl TypeError, vn2)
            | Some stored \<Rightarrow> (Inr (), vn2\<lparr>volumeGain := stored\<rparr>)))"

text \<open>\<^verbatim>\<open>mute\<close> assigns the gain 0, which single precision holds exactly.\<close>

definition mute :: "VolumeNodes \<Rightarrow> VolumeNodes" where
  "mute vn =
     (let volume = getVolume vn in
      if volume > 0 then
        dispatchVolumeChange (vn\<lparr>volumeValueBeforeMute := Some volume, volumeGain := 0\<rparr>)
      else vn)"

text \<open>\<^verbatim>\<open>unmute\<close> assigns the gain \<^verbatim>\<open>this.volumeValueBeforeMute ?? 1\<close>, then dispatches.\<close>

definition unmute :: "VolumeNodes \<Rightarrow> (error + unit) \<times> VolumeNodes" where
  "unmute vn =
     (if getVolume vn = 0 then
        (case toFloat32 (case volumeValueBeforeMute vn of Some w \<Rightarrow> w | None \<Rightarrow> 1) of
           None \<Rightarrow> (Inl TypeError, vn)
         | Some stored \<Rightarrow> (Inr (), dispatchVolumeChange (vn\<lparr>volumeGain := stored\<rparr>)))
      else (Inr (), vn))"

text \<open>
  The constructor: \<^verbatim>\<open>createGain()\<close> gives both gain nodes the Web Audio default gain 1,
  \<^verbatim>\<open>volumeValueBeforeMute\<close> starts undefined, then \<^verbatim>\<open>this.setVolume(volume)\<close> runs and the
  fade gain is assigned. The default arguments are \<^verbatim>\<open>volume = 1, fadeVolume = 1\<close>.
\<close>

definition createdGains :: VolumeNodes where
  "createdGains =
     \<lparr>volumeGain = 1, fadeGain = 1, volumeValueBeforeMute = None, dispatched = []\<rparr>"

definition newVolumeNodes :: "real \<Rightarrow> real \<Rightarrow> (error + unit) \<times> VolumeNodes" where
  "newVolumeNodes volume fadeVolume =
     (case setVolume volume createdGains of
        (Inl e, vn) \<Rightarrow> (Inl e, vn)
      | (Inr u, vn) \<Rightarrow>
          (case toFloat32 fadeVolume of
             None \<Rightarrow> (Inl TypeError, vn)
           | Some stored \<Rightarrow> (Inr (), vn\<lparr>fadeGain := stored\<rparr>)))"

text \<open>The state a caller holds after a call, whether it returned or threw.\<close>

definition afterSetVolume :: "real \<Rightarrow> VolumeNodes \<Rightarrow> VolumeNodes" where
  "afterSetVolume val vn = snd (setVolume val vn)"

definition afterUnmute :: "VolumeNodes \<Rightarrow> VolumeNodes" where
  "afterUnmute vn = snd (unmute vn)"

text \<open>
  Two numbers a caller can pass: the double-precision number that the literal \<^verbatim>\<open>0.6\<close>
  denotes, and the double-precision number \<open>2^-200\<close>.
\<close>

definition double_0_6 :: real where
  "double_0_6 = 5404319552844595 / 9007199254740992"

definition double_tiny :: real where
  "double_tiny = 1 / 2 ^ 200"

section \<open>Channel, Sound and PlayingSound\<close>

text \<open>
  Objects are compared by identity (\<^verbatim>\<open>===\<close>, \<^verbatim>\<open>indexOf\<close>), so every object of the model
  carries the reference it was allocated at; the mixer's \<open>nextRef\<close> is the next free one.
  A \<open>Channel\<close> keeps its \<^verbatim>\<open>readonly\<close> fields \<^verbatim>\<open>name\<close> and \<^verbatim>\<open>type\<close>. Its \<^verbatim>\<open>volumeNodes\<close>
  and the wiring of the audio graph belong to the audio collaborators and take no part in
  the registries modelled here; likewise the options \<^verbatim>\<open>volume\<close>, \<^verbatim>\<open>effects\<close>,
  \<^verbatim>\<open>analyseMode\<close> of a channel and the \<^verbatim>\<open>PlaySoundOptions\<close> of a sound.
\<close>

datatype ChannelType = Monophonic | Polyphonic

record Channel =
  channel_ref :: nat
  channel_name :: string
  channel_type :: ChannelType

text \<open>A sample of the external sample manager, known here by its name.\<close>

datatype Sound = Sound (sound_name: string)

text \<open>
  \<^verbatim>\<open>channelsByName\<close> is a plain object literal \<^verbatim>\<open>{}\<close> read with
  \<^verbatim>\<open>this.channelsByName[name]\<close>. Such a read finds the object's own properties (the
  registered channels) and, for a key they do not have, the members the object inherits
  from \<^verbatim>\<open>Object.prototype\<close>: functions, and for \<^verbatim>\<open>__proto__\<close> the prototype object
  itself, all of them truthy. So the value read is a channel or an inherited member,
  the latter identified by its key.
\<close>

datatype ChannelValue = Chan Channel | Inherited string

definition objectPrototypeKeys :: "string list" where
  "objectPrototypeKeys =
     [''constructor'', ''hasOwnProperty'', ''isPrototypeOf'', ''propertyIsEnumerable'',
      ''toLocaleString'', ''toString'', ''valueOf'', ''__defineGetter__'',
      ''__defineSetter__'', ''__lookupGetter__'', ''__lookupSetter__'', ''__proto__'']"

definition getProperty :: "(string \<rightharpoonup> Channel) \<Rightarrow> string \<Rightarrow> ChannelValue option" where
  "getProperty obj key =
     (case obj key of
        Some c \<Rightarrow> Some (Chan c)
      | None \<Rightarrow> if key \<in> set objectPrototypeKeys then Some (Inherited key) else None)"

text \<open>\<^verbatim>\<open>a === b\<close> on two such values: the same object.\<close>

fun strictEquals :: "ChannelValue \<Rightarrow> ChannelValue \<Rightarrow> bool" where
  "strictEquals (Chan a) (Chan b) = (channel_ref a = channel_ref b)"
| "strictEquals (Inherited j) (Inherited k) = (j = k)"
| "strictEquals (Chan a) (Inherited k) = False"
| "strictEquals (Inherited j) (Chan b) = False"

record PlayingSound =
  ps_ref :: nat
  ps_sound :: Sound
  ps_channel :: "ChannelValue option"

text \<open>The parameter \<^verbatim>\<open>OptionalChannel['channel']\<close>: a channel's name or a channel instance;
  an absent selector is \<open>None\<close>.\<close>

datatype ChannelSelector = ByName string | ByInstance Channel

section \<open>Channels, the mixer\<close>

datatype ChannelsEvent = CHANNELS_UPDATED | PLAYING_SOUNDS_UPDATED

text \<open>
  \<open>getSampleByName\<close> is \<^verbatim>\<open>this.sampleManager.getSampleByName\<close> of the external sample
  manager. \<open>dispatchedEvents\<close> logs the events handed to \<^verbatim>\<open>this.dispatchEvent\<close>, in order.
\<close>

record Channels =
  getSampleByName :: "string \<Rightarrow> Sound option"
  channelsByName :: "string \<rightharpoonup> Channel"
  playingSounds :: "PlayingSound list"
  dispatchedEvents :: "ChannelsEvent list"
  nextRef :: nat

definition newChannels :: "(string \<Rightarrow> Sound option) \<Rightarrow> Channels" where
  "newChannels samples =
     \<lparr>getSampleByName = samples, channelsByName = Map.empty, playingSounds = [],
      dispatchedEvents = [], nextRef = 0\<rparr>"

definition dispatchEvent :: "ChannelsEvent \<Rightarrow> Channels \<Rightarrow> Channels" where
  "dispatchEvent e s = s\<lparr>dispatchedEvents := dispatchedEvents s @ [e]\<rparr>"

definition getPlayingSounds :: "Channels \<Rightarrow> PlayingSound list" where
  "getPlayingSounds s = playingSounds s"

text \<open>\<^verbatim>\<open>new Channel(name, this, createChannelOptions)\<close>: the type defaults to polyphonic.\<close>

definition newChannel :: "string \<Rightarrow> ChannelType option \<Rightarrow> Channels \<Rightarrow> Channel \<times> Channels" where
  "newChannel name channelType s =
     (\<lparr>channel_ref = nextRef s, channel_name = name,
       channel_type = (case channelType of Some t \<Rightarrow> t | None \<Rightarrow> Polyphonic)\<rparr>,
      s\<lparr>nextRef := Suc (nextRef s)\<rparr>)"

definition createChannel ::
    "string \<Rightarrow> ChannelType option \<Rightarrow> Channels \<Rightarrow> (error + Channel) \<times> Channels" where
  "createChannel name channelType s =
     (if name = [] then (Inl InvalidArgument, s)
      else if getProperty (channelsByName s) name \<noteq> None then (Inl DuplicateChannel, s)
      else
        let (channel, s1) = newChannel name channelType s;
            s2 = s1\<lparr>channelsByName := (channelsByName s1)(name \<mapsto> channel)\<rparr>
        in (Inr channel, dispatchEvent CHANNELS_UPDATED s2))"

text \<open>\<^verbatim>\<open>this.playingSounds.indexOf(playingSound)\<close>: the first index holding that object,
  or -1; \<^verbatim>\<open>splice(index, 1)\<close> removes the element at that index.\<close>

fun indexOf :: "PlayingSound list \<Rightarrow> PlayingSound \<Rightarrow> int" where
  "indexOf [] p = - 1"
| "indexOf (q # qs) p =
     (if ps_ref q = ps_ref p then 0
      else let i = indexOf qs p in if i > - 1 then i + 1 else - 1)"

definition splice1 :: "nat \<Rightarrow> 'a list \<Rightarrow> 'a list" where
  "splice1 index xs = take index xs @ drop (Suc index) xs"

definition removePlayingSound :: "PlayingSound \<Rightarrow> Channels \<Rightarrow> (error + unit) \<times> Channels" where
  "removePlayingSound playingSound s =
     (let index = indexOf (playingSounds s) playingSound in
      if index > - 1 then
        (Inr (),
         dispatchEvent PLAYING_SOUNDS_UPDATED
           (s\<lparr>playingSounds := splice1 (nat index) (playingSounds s)\<rparr>))
      else (Inl NotRegistered, s))"

definition getOptionalChannelByNameOrInstance ::
    "ChannelSelector option \<Rightarrow> Channels \<Rightarrow> error + ChannelValue option" where
  "getOptionalChannelByNameOrInstance channel s =
     (case channel of
        Some (ByName n) \<Rightarrow>
          (case getProperty (channelsByName s) n of
             None \<Rightarrow> Inl ChannelNotFound
           | Some v \<Rightarrow> Inr (Some v))
      | Some (ByInstance c) \<Rightarrow> Inr (Some (Chan c))
      | None \<Rightarrow> Inr None)"

definition getChannel :: "string \<Rightarrow> Channels \<Rightarrow> error + ChannelValue" where
  "getChannel channelName s =
     (case getProperty (channelsByName s) channelName of
        None \<Rightarrow> Inl ChannelNotFound
      | Some v \<Rightarrow> Inr v)"

text \<open>
  Modelled from the spec: the class \<^verbatim>\<open>PlayingSound\<close> is not among the sources. Its
  constructor, called by \<open>play\<close> with the mixer, the sound, an input node, the resolved
  channel and the options, makes a new object holding the sound and the optional channel
  ("given a Sample, an input node to connect into, an optional owning Channel, and
  options"); it does not touch the mixer's registry, which \<open>play\<close> appends to afterwards.
\<close>

definition newPlayingSound ::
    "Sound \<Rightarrow> ChannelValue option \<Rightarrow> Channels \<Rightarrow> PlayingSound \<times> Channels" where
  "newPlayingSound sample channelForSound s =
     (\<lparr>ps_ref = nextRef s, ps_sound = sample, ps_channel = channelForSound\<rparr>,
      s\<lparr>nextRef := Suc (nextRef s)\<rparr>)"

text \<open>
  Modelled from the spec: \<^verbatim>\<open>PlayingSound.stop()\<close> is not among the sources. The spec has
  it invoke "the underlying audio stop" and deregister the sound "from the Mixer's
  active-sound registry", and it has it "idempotent-by-contract": a playing sound is
  removed exactly once, "stop called twice" must not "double-decrement the active-instance
  count and must not crash", and \<open>NotRegistered\<close> is never "reachable through the public
  API". So \<open>stop\<close> deregisters the sound through the mixer's \<open>removePlayingSound\<close> while
  the mixer lists it, and does nothing once it is no longer listed.
\<close>

definition stop :: "PlayingSound \<Rightarrow> Channels \<Rightarrow> (error + unit) \<times> Channels" where
  "stop playingSound s =
     (if indexOf (playingSounds s) playingSound > - 1 then removePlayingSound playingSound s
      else (Inr (), s))"

text \<open>\<^verbatim>\<open>.forEach(playingSound => playingSound.stop())\<close> over the filtered copy of the
  array; an exception leaves the loop with the state reached so far.\<close>

fun forEachStop :: "PlayingSound list \<Rightarrow> Channels \<Rightarrow> (error + unit) \<times> Channels" where
  "forEachStop [] s = (Inr (), s)"
| "forEachStop (p # ps) s =
     (case stop p s of
        (Inl e, s1) \<Rightarrow> (Inl e, s1)
      | (Inr u, s1) \<Rightarrow> forEachStop ps s1)"

text \<open>The filter of \<open>stopAll\<close>:
  \<^verbatim>\<open>({ channel }) => channelToStop ? channel === channelToStop : true\<close>.\<close>

definition onChannel :: "ChannelValue option \<Rightarrow> PlayingSound \<Rightarrow> bool" where
  "onChannel channelToStop p =
     (case channelToStop of
        Some c \<Rightarrow> (case ps_channel p of Some pc \<Rightarrow> strictEquals pc c | None \<Rightarrow> False)
      | None \<Rightarrow> True)"

definition stopAll :: "ChannelSelector option \<Rightarrow> Channels \<Rightarrow> (error + unit) \<times> Channels" where
  "stopAll channel s =
     (case getOptionalChannelByNameOrInstance channel s of
        Inl e \<Rightarrow> (Inl e, s)
      | Inr channelToStop \<Rightarrow>
          forEachStop (filter (onChannel channelToStop) (playingSounds s)) s)"

text \<open>\<^verbatim>\<open>channelForSound?.type === 'monophonic'\<close>: false for no channel and for an
  inherited member, which has no \<^verbatim>\<open>type\<close>.\<close>

definition isMonophonic :: "ChannelValue option \<Rightarrow> bool" where
  "isMonophonic channelForSound =
     (case channelForSound of
        Some (Chan c) \<Rightarrow> channel_type c = Monophonic
      | Some (Inherited k) \<Rightarrow> False
      | None \<Rightarrow> False)"

definition play ::
    "string \<Rightarrow> ChannelSelector option \<Rightarrow> Channels \<Rightarrow> (error + PlayingSound) \<times> Channels" where
  "play name channel s =
     (case getSampleByName s name of
        None \<Rightarrow> (Inl SampleNotFound, s)
      | Some sample \<Rightarrow>
          (case getOptionalChannelByNameOrInstance channel s of
             Inl e \<Rightarrow> (Inl e, s)
           | Inr channelForSound \<Rightarrow>
               let (playingSound, s1) = newPlayingSound sample channelForSound s;
                   (stopped, s2) =
                     (if isMonophonic channelForSound then stopAll channel s1
                      else (Inr (), s1))
               in (case stopped of
                     Inl e \<Rightarrow> (Inl e, s2)
                   | Inr u \<Rightarrow>
                       (Inr playingSound,
                        dispatchEvent PLAYING_SOUNDS_UPDATED
                          (s2\<lparr>playingSounds := playingSounds s2 @ [playingSound]\<rparr>)))))"

text \<open>\<^verbatim>\<open>Channel.play\<close> and \<^verbatim>\<open>Channel.stopAll\<close> forward to the mixer with the channel's
  own name as the selector.\<close>

definition Channel_play ::
    "Channel \<Rightarrow> string \<Rightarrow> Channels \<Rightarrow> (error + PlayingSound) \<times> Channels" where
  "Channel_play c name s = play name (Some (ByName (channel_name c))) s"

definition Channel_stopAll :: "Channel \<Rightarrow> Channels \<Rightarrow> (error + unit) \<times> Channels" where
  "Channel_stopAll c s = stopAll (Some (ByName (channel_name c))) s"

text \<open>
  The playing sounds of a channel \<open>c\<close>, said without the mixer's resolver and filter: the
  sound has a channel, that channel is a channel object, and the object is \<open>c\<close> itself
  (the same reference).
\<close>

definition soundOfChannel :: "Channel \<Rightarrow> PlayingSound \<Rightarrow> bool" where
  "soundOfChannel c p =
     (case ps_channel p of
        Some (Chan pc) \<Rightarrow> channel_ref pc = channel_ref c
      | Some (Inherited k) \<Rightarrow> False
      | None \<Rightarrow> False)"

section \<open>Sequences of operations and the registry invariant\<close>

text \<open>
  The calls a client can make on the registry. A call that throws leaves the mixer in
  the state it had reached; the client goes on from there.
\<close>

datatype operation =
    Play string "ChannelSelector option"
  | Stop PlayingSound
  | StopAll "ChannelSelector option"
  | CreateChannel string "ChannelType option"

fun perform :: "operation \<Rightarrow> Channels \<Rightarrow> Channels" where
  "perform (Play name channel) s = snd (play name channel s)"
| "perform (Stop p) s = snd (stop p s)"
| "perform (StopAll channel) s = snd (stopAll channel s)"
| "perform (CreateChannel name channelType) s = snd (createChannel name channelType s)"

fun performAll :: "operation list \<Rightarrow> Channels \<Rightarrow> Channels" where
  "performAll [] s = s"
| "performAll (x # xs) s = performAll xs (perform x s)"

text \<open>
  Every registered object was allocated below \<open>nextRef\<close>, and no object is registered
  twice.
\<close>

definition registry_ok :: "Channels \<Rightarrow> bool" where
  "registry_ok s \<longleftrightarrow>
     distinct (map ps_ref (playingSounds s)) \<and>
     (\<forall>p \<in> set (playingSounds s). ps_ref p < nextRef s)"



section \<open>An example mixer\<close>

text \<open>
  Two samples, a monophonic channel \<open>fx\<close>, a polyphonic channel \<open>music\<close>, one sound playing
  on each channel and one on the master output.
\<close>

definition exampleSamples :: "string \<Rightarrow> Sound option" where
  "exampleSamples = [''a'' \<mapsto> Sound ''a'', ''b'' \<mapsto> Sound ''b'']"

definition fxChannel :: Channel where
  "fxChannel = \<lparr>channel_ref = 0, channel_name = ''fx'', channel_type = Monophonic\<rparr>"

definition musicChannel :: Channel where
  "musicChannel = \<lparr>channel_ref = 1, channel_name = ''music'', channel_type = Polyphonic\<rparr>"

definition exampleMixer :: Channels where
  "exampleMixer =
     performAll
       [CreateChannel ''fx'' (Some Monophonic), CreateChannel ''music'' None,
        Play ''a'' (Some (ByName ''fx'')), Play ''a'' (Some (ByName ''music'')), Play ''b'' None]
       (newChannels exampleSamples)"

section \<open>Single precision: what is stored\<close>

lemma pw_less: "a < b \<Longrightarrow> (2::real) powi a < 2 powi b"
  by (rule power_int_strict_increasing) simp_all

lemma pw_le: "a \<le> b \<Longrightarrow> (2::real) powi a \<le> 2 powi b"
  by (rule power_int_increasing) simp_all

lemma pw_le_D: "(2::real) powi a \<le> 2 powi b \<Longrightarrow> a \<le> b"
  using pw_less [of b a] by (cases "a \<le> b") auto

lemma pw_add: "(2::real) powi (a + b) = 2 powi a * 2 powi b"
  by (rule power_int_add) simp

lemma pw_diff: "(2::real) powi (a - b) = 2 powi a / 2 powi b"
  by (rule power_int_diff) simp

lemma pw_of_int: "0 \<le> k \<Longrightarrow> (2::real) powi k = of_int (2 ^ nat k)"
  by (simp add: power_int_nonneg_exp)

lemma binade_bounds: "- 126 \<le> binade n a \<and> binade n a \<le> int n - 126"
  by (induction n) auto

lemma binade_below: "binade n a \<noteq> - 126 \<Longrightarrow> 2 powi (binade n a) \<le> a"
  by (induction n) (auto split: if_splits)

lemma binade_greatest:
  "- 126 < e \<Longrightarrow> e \<le> int n - 126 \<Longrightarrow> 2 powi e \<le> a \<Longrightarrow> e \<le> binade n a"
proof (induction n)
  case 0
  then show ?case by simp
next
  case (Suc n)
  show ?case
  proof (cases "2 powi (int (Suc n) - 126) \<le> a")
    case True
    with Suc.prems(2) show ?thesis by simp
  next
    case False
    have "e \<noteq> int (Suc n) - 126"
      using False Suc.prems(3) by auto
    with Suc.prems(2) have "e \<le> int n - 126" by simp
    with Suc.IH Suc.prems(1,3) have "e \<le> binade n a" by simp
    with False show ?thesis by simp
  qed
qed

lemma binade_eq:
  assumes "- 126 \<le> e" and "e \<le> int n - 126" and "2 powi e \<le> a" and "a < 2 powi (e + 1)"
  shows "binade n a = e"
proof -
  let ?b = "binade n a"
  have up: "?b \<le> e"
  proof (cases "?b = - 126")
    case True
    with assms(1) show ?thesis by simp
  next
    case False
    then have "2 powi ?b \<le> a" by (rule binade_below)
    with assms(4) have "(2::real) powi ?b < 2 powi (e + 1)" by simp
    then have "\<not> (e + 1 \<le> ?b)"
      using pw_le [of "e + 1" ?b] by auto
    then show ?thesis by simp
  qed
  have low: "e \<le> ?b"
  proof (cases "e = - 126")
    case True
    with binade_bounds [of n a] show ?thesis by simp
  next
    case False
    with assms(1) have "- 126 < e" by simp
    then show ?thesis using assms(2,3) by (rule binade_greatest)
  qed
  from up low show ?thesis by simp
qed

lemma binade_subnormal: "a < 2 powi (- 125) \<Longrightarrow> binade n a = - 126"
proof (rule ccontr)
  assume a: "a < 2 powi (- 125)" and n: "binade n a \<noteq> - 126"
  from n have "2 powi (binade n a) \<le> a" by (rule binade_below)
  with a have "(2::real) powi (binade n a) < 2 powi (- 125)" by simp
  then have "\<not> (- 125 \<le> binade n a)"
    using pw_le [of "- 125" "binade n a"] by auto
  with binade_bounds [of n a] n show False by simp
qed

lemma roundHalfEven_of_int: "roundHalfEven (of_int k) = k"
  by (simp add: roundHalfEven_def)

lemma roundHalfEven_nonneg: "0 \<le> q \<Longrightarrow> 0 \<le> roundHalfEven q"
  by (auto simp: roundHalfEven_def Let_def)

lemma roundHalfEven_le: "q \<le> of_int N \<Longrightarrow> roundHalfEven q \<le> N"
proof -
  assume q: "q \<le> of_int N"
  then have f: "\<lfloor>q\<rfloor> \<le> N" by (simp add: floor_le_iff)
  show ?thesis
  proof (cases "\<lfloor>q\<rfloor> = N")
    case True
    with q have "q = of_int N" using of_int_floor_le [of q] by simp
    then show ?thesis by (simp add: roundHalfEven_of_int)
  next
    case False
    with f have "\<lfloor>q\<rfloor> + 1 \<le> N" by simp
    then show ?thesis by (auto simp: roundHalfEven_def Let_def)
  qed
qed

lemma toFloat32_scaled:
  assumes "0 \<le> n" and "- 126 \<le> e" and "e \<le> 127" and "e \<le> 126 \<longrightarrow> n \<le> 2 ^ 24"
    and "y = of_int n * 2 powi (e - 23)"
  shows "of_int (roundHalfEven (y / 2 powi (binade 253 y - 23))) * 2 powi (binade 253 y - 23) = y"
proof -
  let ?b = "binade 253 y"
  have bb: "- 126 \<le> ?b" "?b \<le> 127"
    using binade_bounds [of 253 y] by simp_all
  have whole: "\<exists>k. y / 2 powi (?b - 23) = of_int k"
  proof (cases "?b \<le> e")
    case True
    have "y / 2 powi (?b - 23) = of_int n * (2 powi (e - 23) / 2 powi (?b - 23))"
      by (simp add: assms(5))
    also have "2 powi (e - 23) / 2 powi (?b - 23) = (2::real) powi (e - ?b)"
      by (simp flip: pw_diff)
    also have "\<dots> = of_int (2 ^ nat (e - ?b))"
      using True by (simp add: pw_of_int)
    finally have "y / 2 powi (?b - 23) = of_int (n * 2 ^ nat (e - ?b))"
      by simp
    then show ?thesis ..
  next
    case False
    then have lt: "e + 1 \<le> ?b" by simp
    with assms(2) have "?b \<noteq> - 126" by simp
    then have below: "2 powi ?b \<le> y" by (rule binade_below)
    from lt bb(2) have e126: "e \<le> 126" by simp
    with assms(4) have n: "n \<le> 2 ^ 24" by simp
    have "(2::real) powi (e + 1) \<le> 2 powi ?b"
      using lt by (rule pw_le)
    also note below
    finally have low: "2 powi (e + 1) \<le> y" .
    have "y \<le> of_int (2 ^ 24) * 2 powi (e - 23)"
      unfolding assms(5) using n by (intro mult_right_mono) (simp_all flip: of_int_le_iff)
    also have "\<dots> = 2 powi 24 * 2 powi (e - 23)"
      by simp
    also have "\<dots> = 2 powi (24 + (e - 23))"
      by (simp only: pw_add)
    also have "24 + (e - 23) = e + 1"
      by simp
    finally have y: "y = 2 powi (e + 1)"
      using low by simp
    with below have "?b \<le> e + 1"
      by (simp add: pw_le_D)
    with lt have b: "?b = e + 1" by simp
    have "y / 2 powi (?b - 23) = y / 2 powi (e + 1 - 23)"
      by (simp only: b)
    also have "\<dots> = 2 powi (e + 1) / 2 powi (e + 1 - 23)"
      by (simp only: y)
    also have "\<dots> = (2::real) powi (e + 1 - (e + 1 - 23))"
      by (simp only: pw_diff)
    also have "\<dots> = of_int (2 ^ 23)"
      by simp
    finally show ?thesis ..
  qed
  then obtain k where k: "y / 2 powi (?b - 23) = of_int k" ..
  then have "of_int (roundHalfEven (y / 2 powi (?b - 23))) * 2 powi (?b - 23) =
      y / 2 powi (?b - 23) * 2 powi (?b - 23)"
    by (simp add: roundHalfEven_of_int)
  also have "\<dots> = y"
    by simp
  finally show ?thesis .
qed

text \<open>The magnitude that \<open>toFloat32\<close> computes.\<close>

lemma toFloat32_magnitude:
  assumes "toFloat32 x = Some w"
  shows "\<exists>n e. 0 \<le> n \<and> - 126 \<le> e \<and> e \<le> 127 \<and> (e \<le> 126 \<longrightarrow> n \<le> 2 ^ 24) \<and>
           \<bar>w\<bar> = of_int n * 2 powi (e - 23) \<and> w = sgn x * \<bar>w\<bar> \<and> \<bar>w\<bar> < 2 powi 128"
proof -
  let ?e = "binade 253 \<bar>x\<bar>"
  let ?n = "roundHalfEven (\<bar>x\<bar> / 2 powi (?e - 23))"
  let ?y = "of_int ?n * (2::real) powi (?e - 23)"
  from assms have small: "?y < 2 powi 128" and w: "w = sgn x * ?y"
    by (auto simp: toFloat32_def Let_def split: if_splits)
  have n0: "0 \<le> ?n"
    by (rule roundHalfEven_nonneg) simp
  then have y0: "0 \<le> ?y" by simp
  have zero: "?y = 0" if "x = 0"
    using that by (simp add: roundHalfEven_def)
  have absw: "\<bar>w\<bar> = ?y"
  proof (cases "x = 0")
    case True
    with w zero show ?thesis by simp
  next
    case False
    then have "\<bar>sgn x\<bar> = 1" by (simp add: abs_sgn_eq)
    with w n0 show ?thesis by (simp add: abs_mult)
  qed
  have eb: "- 126 \<le> ?e" "?e \<le> 127"
    using binade_bounds [of 253 "\<bar>x\<bar>"] by simp_all
  have nb: "?n \<le> 2 ^ 24" if "?e \<le> 126"
  proof -
    have "\<not> (2 powi (?e + 1) \<le> \<bar>x\<bar>)"
    proof
      assume "2 powi (?e + 1) \<le> \<bar>x\<bar>"
      with that eb(1) have "?e + 1 \<le> ?e"
        by (intro binade_greatest) simp_all
      then show False by simp
    qed
    then have "\<bar>x\<bar> \<le> 2 powi (?e + 1)" by simp
    then have "\<bar>x\<bar> / 2 powi (?e - 23) \<le> 2 powi (?e + 1) / 2 powi (?e - 23)"
      by (simp add: divide_right_mono)
    also have "\<dots> = (2::real) powi (?e + 1 - (?e - 23))"
      by (simp only: pw_diff)
    also have "\<dots> = of_int (2 ^ 24)"
      by simp
    finally show ?thesis
      by (rule roundHalfEven_le)
  qed
  from n0 eb nb absw w small show ?thesis
    by (intro exI [of _ ?n] exI [of _ ?e]) simp
qed

lemma toFloat32_idem:
  assumes "toFloat32 x = Some w"
  shows "toFloat32 w = Some w"
proof -
  from toFloat32_magnitude [OF assms] obtain n e where
    ne: "0 \<le> n" "- 126 \<le> e" "e \<le> 127" "e \<le> 126 \<longrightarrow> n \<le> 2 ^ 24"
      "\<bar>w\<bar> = of_int n * 2 powi (e - 23)" and small: "\<bar>w\<bar> < 2 powi 128"
    by blast
  have "of_int (roundHalfEven (\<bar>w\<bar> / 2 powi (binade 253 \<bar>w\<bar> - 23))) *
      2 powi (binade 253 \<bar>w\<bar> - 23) = \<bar>w\<bar>"
    using ne by (rule toFloat32_scaled)
  with small show ?thesis
    by (simp add: toFloat32_def Let_def mult_sgn_abs)
qed

lemma toFloat32_nonneg: "0 \<le> x \<Longrightarrow> toFloat32 x = Some w \<Longrightarrow> 0 \<le> w"
proof -
  assume x: "0 \<le> x" and w: "toFloat32 x = Some w"
  from toFloat32_magnitude [OF w] have "w = sgn x * \<bar>w\<bar>" by blast
  with x show ?thesis
    by (cases "x = 0") (simp_all add: sgn_if)
qed

lemma toFloat32_0: "toFloat32 0 = Some 0"
  by (simp add: toFloat32_def roundHalfEven_def)

lemma toFloat32_normal:
  assumes "- 126 \<le> e" and "e \<le> 127" and "2 powi e \<le> \<bar>x\<bar>" and "\<bar>x\<bar> < 2 powi (e + 1)"
  shows "toFloat32 x =
    (let y = of_int (roundHalfEven (\<bar>x\<bar> / 2 powi (e - 23))) * 2 powi (e - 23)
     in if 2 powi 128 \<le> y then None else Some (sgn x * y))"
proof -
  from assms(2) have "e \<le> int 253 - 126" by simp
  with assms(1) have "binade 253 \<bar>x\<bar> = e"
    using assms(3,4) by (rule binade_eq)
  then show ?thesis
    by (simp add: toFloat32_def)
qed

lemma toFloat32_lowest:
  assumes "\<bar>x\<bar> < 2 powi (- 125)"
  shows "toFloat32 x =
    (let y = of_int (roundHalfEven (\<bar>x\<bar> / 2 powi (- 149))) * 2 powi (- 149)
     in if 2 powi 128 \<le> y then None else Some (sgn x * y))"
  using binade_subnormal [OF assms, of 253] by (simp add: toFloat32_def)

lemma toFloat32_1: "toFloat32 1 = Some 1"
  using toFloat32_normal [of 0 1] by (simp add: roundHalfEven_def)

lemma roundHalfEven_near: "\<bar>of_int (roundHalfEven q) - q\<bar> \<le> 1 / 2"
  by (auto simp: roundHalfEven_def Let_def)

lemma toFloat32_1_2: "toFloat32 (1 / 2) = Some (1 / 2)"
  using toFloat32_normal [of "- 1" "1 / 2"] by (simp add: roundHalfEven_def)

lemma toFloat32_double_0_6: "toFloat32 double_0_6 = Some (5033165 / 8388608)"
  using toFloat32_normal [of "- 1" double_0_6]
  by (simp add: double_0_6_def roundHalfEven_def)

lemma toFloat32_double_tiny: "toFloat32 double_tiny = Some 0"
  using toFloat32_lowest [of double_tiny]
  by (simp add: double_tiny_def roundHalfEven_def)

text \<open>
  Ties go to the even significand (\<open>2^24 + 1\<close> goes down, \<open>2^24 + 3\<close> goes up), and \<open>2^128\<close>
  is beyond the range.
\<close>

lemma toFloat32_ties:
  "toFloat32 16777217 = Some 16777216" "toFloat32 16777219 = Some 16777220"
  using toFloat32_normal [of 24 16777217] toFloat32_normal [of 24 16777219]
  by (simp_all add: roundHalfEven_def)

lemma toFloat32_beyond_range: "toFloat32 (2 ^ 128) = None"
proof -
  have "127 \<le> binade 253 \<bar>2 ^ 128\<bar>"
    by (rule binade_greatest) simp_all
  with binade_bounds [of 253 "\<bar>2 ^ 128\<bar>"] have "binade 253 \<bar>2 ^ 128\<bar> = 127"
    by simp
  then show ?thesis
    by (simp add: toFloat32_def roundHalfEven_def)
qed

lemma double_0_6_facts:
  "0 < double_0_6" "double_0_6 \<noteq> 1" "double_0_6 \<noteq> 5033165 / 8388608"
  by (simp_all add: double_0_6_def)

lemma double_tiny_facts: "0 < double_tiny" "double_tiny \<noteq> 1"
  by (simp_all add: double_tiny_def)

lemma toFloat32_near:
  assumes "toFloat32 x = Some w"
  shows "\<bar>w - x\<bar> \<le> 2 powi (binade 253 \<bar>x\<bar> - 24)"
proof -
  let ?u = "(2::real) powi (binade 253 \<bar>x\<bar> - 23)"
  let ?n = "roundHalfEven (\<bar>x\<bar> / ?u)"
  have u: "0 < ?u" by simp
  from assms have w: "w = sgn x * (of_int ?n * ?u)"
    by (auto simp: toFloat32_def Let_def split: if_splits)
  have "sgn x * \<bar>x\<bar> = x"
    by (rule mult_sgn_abs)
  then have "w - x = sgn x * (of_int ?n * ?u - \<bar>x\<bar>)"
    by (simp add: w right_diff_distrib)
  then have "\<bar>w - x\<bar> \<le> \<bar>of_int ?n * ?u - \<bar>x\<bar>\<bar>"
    by (simp add: abs_mult sgn_if)
  also have "of_int ?n * ?u - \<bar>x\<bar> = (of_int ?n - \<bar>x\<bar> / ?u) * ?u"
    using u by (simp add: field_simps)
  also have "\<bar>\<dots>\<bar> = \<bar>of_int ?n - \<bar>x\<bar> / ?u\<bar> * ?u"
    using u by (simp add: abs_mult)
  also have "\<dots> \<le> 1 / 2 * ?u"
    using u roundHalfEven_near [of "\<bar>x\<bar> / ?u"] by (intro mult_right_mono) simp_all
  also have "\<dots> = 2 powi (binade 253 \<bar>x\<bar> - 23 - 1)"
    by (simp only: pw_diff) simp
  finally show ?thesis by simp
qed

section \<open>VolumeNodes: volume, mute and unmute\<close>

lemma setVolume_negative: "v < 0 \<Longrightarrow> setVolume v vn = (Inl InvalidArgument, vn)"
  by (simp add: setVolume_def)

lemma setVolume_same: "0 \<le> v \<Longrightarrow> v = volumeGain vn \<Longrightarrow> setVolume v vn = (Inr (), vn)"
  by (simp add: setVolume_def)

lemma setVolume_change:
  "0 \<le> v \<Longrightarrow> v \<noteq> volumeGain vn \<Longrightarrow> toFloat32 v = Some w \<Longrightarrow>
   setVolume v vn =
     (Inr (), vn\<lparr>volumeGain := w,
                  volumeValueBeforeMute := (if v = 0 then Some 1 else None),
                  dispatched := dispatched vn @
                    [\<lparr>seenVolume = volumeGain vn,
                      seenValueBeforeMute = (if v = 0 then Some 1 else None)\<rparr>]\<rparr>)"
  by (simp add: setVolume_def dispatchVolumeChange_def getVolume_def Let_def)

lemma setVolume_out_of_range:
  "0 \<le> v \<Longrightarrow> v \<noteq> volumeGain vn \<Longrightarrow> toFloat32 v = None \<Longrightarrow>
   fst (setVolume v vn) = Inl TypeError \<and>
   volumeGain (snd (setVolume v vn)) = volumeGain vn \<and>
   length (dispatched (snd (setVolume v vn))) = Suc (length (dispatched vn))"
  by (simp add: setVolume_def dispatchVolumeChange_def getVolume_def Let_def)

lemma afterSetVolume_positive:
  assumes "0 < v" and "toFloat32 v = Some w" and "w \<noteq> 0"
  shows "0 < volumeGain (afterSetVolume v vn)"
    and "toFloat32 (volumeGain (afterSetVolume v vn)) = Some w"
proof -
  from assms(1) have v0: "0 \<le> v" by simp
  then have "0 \<le> w" using assms(2) by (rule toFloat32_nonneg)
  with assms(3) have wpos: "0 < w" by simp
  have idem: "toFloat32 w = Some w"
    using assms(2) by (rule toFloat32_idem)
  show "0 < volumeGain (afterSetVolume v vn)"
  proof (cases "v = volumeGain vn")
    case True
    then have "afterSetVolume v vn = vn"
      using v0 by (simp add: afterSetVolume_def setVolume_same)
    with True assms(1) show ?thesis by simp
  next
    case False
    then have "volumeGain (afterSetVolume v vn) = w"
      using v0 assms(2) by (simp add: afterSetVolume_def setVolume_change)
    with wpos show ?thesis by simp
  qed
  show "toFloat32 (volumeGain (afterSetVolume v vn)) = Some w"
  proof (cases "v = volumeGain vn")
    case True
    then have "afterSetVolume v vn = vn"
      using v0 by (simp add: afterSetVolume_def setVolume_same)
    then have "volumeGain (afterSetVolume v vn) = v"
      using True by simp
    then show ?thesis by (simp only: assms(2))
  next
    case False
    then have "volumeGain (afterSetVolume v vn) = w"
      using v0 assms(2) by (simp add: afterSetVolume_def setVolume_change)
    then show ?thesis by (simp only: idem)
  qed
qed

lemma unmute_restores:
  "volumeGain vn = 0 \<Longrightarrow> volumeValueBeforeMute vn = Some b \<Longrightarrow> toFloat32 b = Some w \<Longrightarrow>
   fst (unmute vn) = Inr () \<and> volumeGain (snd (unmute vn)) = w"
  by (simp add: unmute_def getVolume_def dispatchVolumeChange_def)

lemma mute_remembers:
  "0 < volumeGain vn \<Longrightarrow>
   volumeGain (mute vn) = 0 \<and> volumeValueBeforeMute (mute vn) = Some (volumeGain vn)"
  by (simp add: mute_def getVolume_def dispatchVolumeChange_def Let_def)

text \<open>
  C3, as the code has it. For every \<open>v \<ge> 0\<close> that the gain parameter holds exactly (a
  single-precision number, such as 0, 1/2 or 1), \<open>setVolume(v)\<close> returns and \<open>getVolume()\<close>
  then returns \<open>v\<close>. For every \<open>v \<ge> 0\<close> in the single-precision range, on a controller whose
  gain is a single-precision number, \<open>getVolume()\<close> returns the single-precision rounding of
  \<open>v\<close>. For every \<open>v < 0\<close>, \<open>setVolume(v)\<close> fails with \<open>InvalidArgument\<close> and the object is
  left as it was, so the stored volume is unchanged.
\<close>

theorem setVolume_get_stored:
  "(0 \<le> v \<and> toFloat32 v = Some v \<longrightarrow>
      fst (setVolume v vn) = Inr () \<and> getVolume (snd (setVolume v vn)) = v) \<and>
   (0 \<le> v \<and> toFloat32 v = Some w \<and> toFloat32 (volumeGain vn) = Some (volumeGain vn) \<longrightarrow>
      fst (setVolume v vn) = Inr () \<and> getVolume (snd (setVolume v vn)) = w) \<and>
   (v < 0 \<longrightarrow> setVolume v vn = (Inl InvalidArgument, vn) \<and>
      getVolume (snd (setVolume v vn)) = getVolume vn)"
  by (auto simp: setVolume_def getVolume_def dispatchVolumeChange_def Let_def)

theorem setVolume_get_stored_witness:
  "(0::real) \<le> 1 / 2 \<and> toFloat32 (1 / 2) = Some (1 / 2) \<and>
   fst (setVolume (1 / 2) createdGains) = Inr () \<and>
   getVolume (snd (setVolume (1 / 2) createdGains)) = 1 / 2 \<and>
   0 \<le> double_0_6 \<and> toFloat32 double_0_6 = Some (5033165 / 8388608) \<and>
   toFloat32 (volumeGain createdGains) = Some (volumeGain createdGains) \<and>
   getVolume (snd (setVolume double_0_6 createdGains)) = 5033165 / 8388608 \<and>
   (- 1 :: real) < 0 \<and>
   setVolume (- 1) createdGains = (Inl InvalidArgument, createdGains) \<and>
   getVolume (snd (setVolume (- 1) createdGains)) = 1"
proof -
  have g: "toFloat32 (volumeGain createdGains) = Some (volumeGain createdGains)"
    by (simp add: createdGains_def toFloat32_1)
  from g toFloat32_1_2 toFloat32_double_0_6 double_0_6_facts(1)
    setVolume_get_stored [where v = "1 / 2" and vn = createdGains]
    setVolume_get_stored [where v = double_0_6 and w = "5033165 / 8388608"
      and vn = createdGains]
    setVolume_get_stored [where v = "- 1" and vn = createdGains]
  show ?thesis
    by (simp add: createdGains_def getVolume_def)
qed

text \<open>
  The volume read back is not always the volume set: the number written \<^verbatim>\<open>0.6\<close> is read
  back as 0.6000000238418579, its single-precision rounding.
\<close>

theorem setVolume_get_rounds:
  "0 \<le> double_0_6 \<and>
   fst (setVolume double_0_6 createdGains) = Inr () \<and>
   getVolume (snd (setVolume double_0_6 createdGains)) = 5033165 / 8388608 \<and>
   getVolume (snd (setVolume double_0_6 createdGains)) \<noteq> double_0_6"
  using double_0_6_facts
  by (simp add: setVolume_def createdGains_def getVolume_def dispatchVolumeChange_def
      toFloat32_double_0_6)

text \<open>
  C4, as the code has it. Mute/unmute round trip: for every \<open>v > 0\<close> whose single-precision
  rounding \<open>w\<close> is not 0, after \<open>setVolume(v)\<close> and \<open>mute()\<close> the volume read is 0, and
  \<open>unmute()\<close> returns and brings it to \<open>w\<close>, which is \<open>v\<close> when \<open>v\<close> is a single-precision
  number. \<open>mute()\<close> at volume 0 changes nothing, and \<open>unmute()\<close> at a non-zero volume
  changes nothing.
\<close>

theorem mute_unmute_roundtrip:
  "(0 < v \<and> toFloat32 v = Some w \<and> w \<noteq> 0 \<longrightarrow>
      getVolume (mute (afterSetVolume v vn)) = 0 \<and>
      fst (unmute (mute (afterSetVolume v vn))) = Inr () \<and>
      getVolume (afterUnmute (mute (afterSetVolume v vn))) = w) \<and>
   (getVolume vn = 0 \<longrightarrow> mute vn = vn) \<and>
   (getVolume vn \<noteq> 0 \<longrightarrow> unmute vn = (Inr (), vn))"
proof -
  have "getVolume (mute (afterSetVolume v vn)) = 0 \<and>
        fst (unmute (mute (afterSetVolume v vn))) = Inr () \<and>
        getVolume (afterUnmute (mute (afterSetVolume v vn))) = w"
    if v: "0 < v" and w: "toFloat32 v = Some w" and nz: "w \<noteq> 0"
  proof -
    let ?s = "afterSetVolume v vn"
    note pos = afterSetVolume_positive(1) [OF v w nz, of vn]
    note kept = afterSetVolume_positive(2) [OF v w nz, of vn]
    from mute_remembers [OF pos]
    have m: "volumeGain (mute ?s) = 0" "volumeValueBeforeMute (mute ?s) = Some (volumeGain ?s)"
      by simp_all
    from unmute_restores [OF m kept] m(1) show ?thesis
      by (simp add: getVolume_def afterUnmute_def)
  qed
  moreover have "getVolume vn = 0 \<longrightarrow> mute vn = vn"
    by (simp add: mute_def Let_def)
  moreover have "getVolume vn \<noteq> 0 \<longrightarrow> unmute vn = (Inr (), vn)"
    by (simp add: unmute_def)
  ultimately show ?thesis by blast
qed

theorem mute_unmute_roundtrip_witness:
  "(0::real) < 1 / 2 \<and> toFloat32 (1 / 2) = Some (1 / 2) \<and>
   getVolume (mute (afterSetVolume (1 / 2) createdGains)) = 0 \<and>
   getVolume (afterUnmute (mute (afterSetVolume (1 / 2) createdGains))) = 1 / 2 \<and>
   getVolume (mute createdGains) = 0 \<and> mute (mute createdGains) = mute createdGains \<and>
   getVolume createdGains \<noteq> 0 \<and> unmute createdGains = (Inr (), createdGains)"
  using toFloat32_1_2
    mute_unmute_roundtrip [where v = "1 / 2" and w = "1 / 2" and vn = createdGains]
    mute_unmute_roundtrip [where vn = "mute createdGains"]
    mute_unmute_roundtrip [where vn = createdGains]
  by (simp add: createdGains_def getVolume_def mute_def dispatchVolumeChange_def)

text \<open>
  The round trip does not restore every \<open>v > 0\<close>: after \<^verbatim>\<open>setVolume(0.6); mute(); unmute()\<close>
  the volume read is 0.6000000238418579.
\<close>

theorem mute_unmute_rounds:
  "0 < double_0_6 \<and>
   getVolume (mute (afterSetVolume double_0_6 createdGains)) = 0 \<and>
   getVolume (afterUnmute (mute (afterSetVolume double_0_6 createdGains))) = 5033165 / 8388608 \<and>
   getVolume (afterUnmute (mute (afterSetVolume double_0_6 createdGains))) \<noteq> double_0_6"
proof -
  have r: "toFloat32 (5033165 / 8388608) = Some (5033165 / 8388608)"
    using toFloat32_double_0_6 by (rule toFloat32_idem)
  have s: "afterSetVolume double_0_6 createdGains =
      createdGains\<lparr>volumeGain := 5033165 / 8388608,
        dispatched := [\<lparr>seenVolume = 1, seenValueBeforeMute = None\<rparr>]\<rparr>"
    using double_0_6_facts
    by (simp add: afterSetVolume_def setVolume_def createdGains_def getVolume_def
        dispatchVolumeChange_def toFloat32_double_0_6)
  have m: "mute (afterSetVolume double_0_6 createdGains) =
      createdGains\<lparr>volumeGain := 0, volumeValueBeforeMute := Some (5033165 / 8388608),
        dispatched := [\<lparr>seenVolume = 1, seenValueBeforeMute = None\<rparr>,
          \<lparr>seenVolume = 0, seenValueBeforeMute = Some (5033165 / 8388608)\<rparr>]\<rparr>"
    unfolding s
    by (simp add: mute_def getVolume_def dispatchVolumeChange_def createdGains_def Let_def)
  have u: "volumeGain (afterUnmute (mute (afterSetVolume double_0_6 createdGains))) =
      5033165 / 8388608"
    unfolding m
    by (simp add: afterUnmute_def unmute_def getVolume_def r createdGains_def
        dispatchVolumeChange_def)
  have z: "volumeGain (mute (afterSetVolume double_0_6 createdGains)) = 0"
    unfolding m by simp
  from u z double_0_6_facts show ?thesis
    by (simp add: getVolume_def)
qed

lemma afterSetVolume_zero_idem:
  "volumeGain vn = 0 \<Longrightarrow> afterSetVolume 0 vn = vn"
  by (simp add: afterSetVolume_def setVolume_def)

lemma afterSetVolume_zero_funpow:
  "volumeGain vn = 0 \<Longrightarrow> (afterSetVolume 0 ^^ n) vn = vn"
  by (induction n) (simp_all add: afterSetVolume_zero_idem)

lemma afterSetVolume_zero_target:
  assumes "getVolume vn \<noteq> 0 \<or> volumeValueBeforeMute vn = None"
  shows "volumeGain (afterSetVolume 0 vn) = 0 \<and>
         (volumeValueBeforeMute (afterSetVolume 0 vn) = Some 1 \<or>
          volumeValueBeforeMute (afterSetVolume 0 vn) = None)"
  using assms
  by (auto simp: afterSetVolume_def setVolume_def getVolume_def dispatchVolumeChange_def
      Let_def toFloat32_0)

text \<open>
  C5. Implicit-mute recovery: when the volume reaches 0 through \<open>setVolume(0)\<close>, issued once
  or several times in a row, and no explicit \<open>mute()\<close> has left a restore target at volume 0
  (the volume was non-zero before, or it was 0 with no remembered value), \<open>unmute()\<close>
  returns and sets the volume to 1.
\<close>

theorem implicit_mute_recovery:
  assumes "getVolume vn \<noteq> 0 \<or> volumeValueBeforeMute vn = None" and "0 < n"
  shows "getVolume ((afterSetVolume 0 ^^ n) vn) = 0 \<and>
         fst (unmute ((afterSetVolume 0 ^^ n) vn)) = Inr () \<and>
         getVolume (afterUnmute ((afterSetVolume 0 ^^ n) vn)) = 1"
proof -
  from \<open>0 < n\<close> obtain m where n: "n = Suc m"
    by (cases n) auto
  let ?s = "afterSetVolume 0 vn"
  have s: "volumeGain ?s = 0 \<and>
           (volumeValueBeforeMute ?s = Some 1 \<or> volumeValueBeforeMute ?s = None)"
    using assms(1) by (rule afterSetVolume_zero_target)
  have "(afterSetVolume 0 ^^ n) vn = (afterSetVolume 0 ^^ m) ?s"
    by (simp add: n funpow_swap1)
  also have "\<dots> = ?s"
    using s by (simp add: afterSetVolume_zero_funpow)
  finally have eq: "(afterSetVolume 0 ^^ n) vn = ?s" .
  from s show ?thesis
    unfolding eq
    by (auto simp: afterUnmute_def unmute_def getVolume_def dispatchVolumeChange_def
        toFloat32_1)
qed

theorem implicit_mute_recovery_witness:
  "getVolume createdGains \<noteq> 0 \<and>
   getVolume (afterUnmute (afterSetVolume 0 createdGains)) = 1 \<and>
   getVolume (afterUnmute (afterSetVolume 0 (afterSetVolume 0 createdGains))) = 1"
  using implicit_mute_recovery [of createdGains 1] implicit_mute_recovery [of createdGains 2]
  by (simp add: createdGains_def getVolume_def numeral_2_eq_2)

text \<open>
  C10, as the code has it. For every \<open>v > 0\<close> whose single-precision rounding \<open>w\<close> is not 0,
  after \<open>setVolume(v); mute()\<close> the call \<open>setVolume(0)\<close> returns at the equal-value check and
  changes nothing, so the restore target of the explicit mute stays and \<open>unmute()\<close> brings
  the volume back to \<open>w\<close>, the volume read before the mute (\<open>v\<close> itself when \<open>v\<close> is a
  single-precision number), not to the default 1 of an implicit mute.
\<close>

theorem setVolume_zero_keeps_mute_target:
  assumes "0 < v" and "toFloat32 v = Some w" and "w \<noteq> 0"
  shows "setVolume 0 (mute (afterSetVolume v vn)) = (Inr (), mute (afterSetVolume v vn)) \<and>
         fst (unmute (afterSetVolume 0 (mute (afterSetVolume v vn)))) = Inr () \<and>
         getVolume (afterUnmute (afterSetVolume 0 (mute (afterSetVolume v vn)))) = w"
proof -
  let ?s = "afterSetVolume v vn"
  let ?m = "mute ?s"
  note pos = afterSetVolume_positive(1) [OF assms, of vn]
  note kept = afterSetVolume_positive(2) [OF assms, of vn]
  from mute_remembers [OF pos]
  have m: "volumeGain ?m = 0" "volumeValueBeforeMute ?m = Some (volumeGain ?s)"
    by simp_all
  from m(1) have noop: "setVolume 0 ?m = (Inr (), ?m)"
    by (simp add: setVolume_def)
  then have same: "afterSetVolume 0 ?m = ?m"
    by (simp add: afterSetVolume_def)
  from unmute_restores [OF m kept] noop show ?thesis
    by (simp add: same getVolume_def afterUnmute_def)
qed

theorem setVolume_zero_keeps_mute_target_witness:
  "(0::real) < 1 / 2 \<and> toFloat32 (1 / 2) = Some (1 / 2) \<and> (1 / 2 :: real) \<noteq> 0 \<and>
   getVolume (afterUnmute (afterSetVolume 0 (mute (afterSetVolume (1 / 2) createdGains)))) =
     1 / 2"
  using toFloat32_1_2
    setVolume_zero_keeps_mute_target [where v = "1 / 2" and w = "1 / 2" and vn = createdGains]
  by simp

text \<open>
  Not every \<open>v > 0\<close> is restored: a positive volume too small for single precision is stored
  as 0, \<open>mute()\<close> then finds nothing to mute and remembers nothing, and after
  \<open>setVolume(0)\<close> the call \<open>unmute()\<close> sets the volume to the default 1.
\<close>

theorem setVolume_zero_tiny_volume:
  "0 < double_tiny \<and>
   getVolume (afterUnmute
     (afterSetVolume 0 (mute (afterSetVolume double_tiny createdGains)))) = 1 \<and>
   double_tiny \<noteq> 1"
proof -
  have s: "afterSetVolume double_tiny createdGains =
      createdGains\<lparr>volumeGain := 0,
        dispatched := [\<lparr>seenVolume = 1, seenValueBeforeMute = None\<rparr>]\<rparr>"
    using double_tiny_facts
    by (simp add: afterSetVolume_def setVolume_def createdGains_def getVolume_def
        dispatchVolumeChange_def toFloat32_double_tiny)
  have m: "mute (afterSetVolume double_tiny createdGains) =
      afterSetVolume double_tiny createdGains"
    unfolding s by (simp add: mute_def getVolume_def)
  have z: "afterSetVolume 0 (afterSetVolume double_tiny createdGains) =
      afterSetVolume double_tiny createdGains"
    by (rule afterSetVolume_zero_idem) (simp add: s)
  have "volumeGain (afterUnmute (afterSetVolume double_tiny createdGains)) = 1"
    unfolding s
    by (simp add: afterUnmute_def unmute_def getVolume_def createdGains_def toFloat32_1
        dispatchVolumeChange_def)
  with double_tiny_facts show ?thesis
    by (simp add: m z getVolume_def)
qed

text \<open>
  The gain stays a single-precision number through every operation, so the condition on
  the controller in C3 holds of every controller a program can reach.
\<close>

lemma setVolume_keeps_single_precision:
  assumes "toFloat32 (volumeGain vn) = Some (volumeGain vn)"
  shows "toFloat32 (volumeGain (afterSetVolume v vn)) = Some (volumeGain (afterSetVolume v vn))"
proof (cases "toFloat32 v")
  case None
  with assms show ?thesis
    by (simp add: afterSetVolume_def setVolume_def dispatchVolumeChange_def Let_def)
next
  case (Some w)
  then have "toFloat32 w = Some w" by (rule toFloat32_idem)
  with Some assms show ?thesis
    by (simp add: afterSetVolume_def setVolume_def dispatchVolumeChange_def Let_def)
qed

lemma mute_keeps_single_precision:
  "toFloat32 (volumeGain vn) = Some (volumeGain vn) \<Longrightarrow>
   toFloat32 (volumeGain (mute vn)) = Some (volumeGain (mute vn))"
  by (simp add: mute_def dispatchVolumeChange_def Let_def toFloat32_0)

lemma unmute_keeps_single_precision:
  assumes "toFloat32 (volumeGain vn) = Some (volumeGain vn)"
  shows "toFloat32 (volumeGain (afterUnmute vn)) = Some (volumeGain (afterUnmute vn))"
proof (cases "toFloat32 (case volumeValueBeforeMute vn of Some w \<Rightarrow> w | None \<Rightarrow> 1)")
  case None
  with assms show ?thesis
    by (simp add: afterUnmute_def unmute_def)
next
  case (Some w)
  then have "toFloat32 w = Some w" by (rule toFloat32_idem)
  with Some assms show ?thesis
    by (simp add: afterUnmute_def unmute_def dispatchVolumeChange_def)
qed

section \<open>VolumeNodes: notifications\<close>

text \<open>
  Each of the three operations dispatches exactly one \<^verbatim>\<open>VOLUME_CHANGE\<close> when it changes
  the volume. \<open>mute\<close> and \<open>unmute\<close> dispatch after assigning the gain, so their listeners
  read the new volume; \<open>setVolume\<close> dispatches before assigning it, so its listeners read
  the volume from before the call.
\<close>

lemma mute_dispatches_after:
  "0 < volumeGain vn \<Longrightarrow>
   dispatched (mute vn) = dispatched vn @
     [\<lparr>seenVolume = getVolume (mute vn), seenValueBeforeMute = Some (volumeGain vn)\<rparr>]"
  by (simp add: mute_def getVolume_def dispatchVolumeChange_def Let_def)

lemma unmute_dispatches_after:
  "volumeGain vn = 0 \<Longrightarrow> fst (unmute vn) = Inr () \<Longrightarrow>
   dispatched (afterUnmute vn) = dispatched vn @
     [\<lparr>seenVolume = getVolume (afterUnmute vn),
       seenValueBeforeMute = volumeValueBeforeMute vn\<rparr>]"
  by (auto simp: afterUnmute_def unmute_def getVolume_def dispatchVolumeChange_def
      split: option.splits)

lemma setVolume_dispatches_before:
  "0 \<le> v \<Longrightarrow> v \<noteq> volumeGain vn \<Longrightarrow>
   dispatched (afterSetVolume v vn) = dispatched vn @
     [\<lparr>seenVolume = getVolume vn,
       seenValueBeforeMute = volumeValueBeforeMute (afterSetVolume v vn)\<rparr>]"
  by (auto simp: afterSetVolume_def setVolume_def dispatchVolumeChange_def getVolume_def
      Let_def split: option.splits)

text \<open>
  C9. Every real volume change emits exactly one notification, and when it is emitted the
  stored volume already has its new value. The code does not do this in \<open>setVolume\<close>: on a
  controller at volume 1, \<open>setVolume(1/2)\<close> emits its one notification while
  \<open>getVolume()\<close> still reads 1 (and \<open>volumeValueBeforeMute\<close> is already rewritten); the
  volume becomes 1/2 only afterwards.
\<close>

theorem setVolume_notifies_stale_volume:
  "dispatched (snd (setVolume (1 / 2) createdGains)) =
     [\<lparr>seenVolume = 1, seenValueBeforeMute = None\<rparr>] \<and>
   getVolume (snd (setVolume (1 / 2) createdGains)) = 1 / 2"
  by (simp add: setVolume_def createdGains_def dispatchVolumeChange_def getVolume_def Let_def
      toFloat32_1_2)

section \<open>The registry of playing sounds\<close>

text \<open>What \<open>indexOf\<close> finds, and what \<open>splice\<close> removes at that index.\<close>

lemma indexOf_found_iff: "indexOf xs p > - 1 \<longleftrightarrow> ps_ref p \<in> ps_ref ` set xs"
  by (induction xs) (auto simp: Let_def)


lemma indexOf_nonneg: "indexOf xs p > - 1 \<Longrightarrow> 0 \<le> indexOf xs p"
  by (induction xs) (auto simp: Let_def)

lemma splice1_Cons: "splice1 (Suc i) (x # xs) = x # splice1 i xs"
  by (simp add: splice1_def)

lemma splice1_indexOf:
  "distinct (map ps_ref xs) \<Longrightarrow> ps_ref p \<in> ps_ref ` set xs \<Longrightarrow>
   splice1 (nat (indexOf xs p)) xs = filter (\<lambda>q. ps_ref q \<noteq> ps_ref p) xs"
proof (induction xs)
  case Nil
  then show ?case by simp
next
  case (Cons q qs)
  show ?case
  proof (cases "ps_ref q = ps_ref p")
    case True
    with Cons.prems(1) have "ps_ref p \<notin> ps_ref ` set qs"
      by simp
    then have "\<forall>r \<in> set qs. ps_ref r \<noteq> ps_ref p"
      by (auto simp: image_iff)
    then have "filter (\<lambda>q. ps_ref q \<noteq> ps_ref p) qs = qs"
      by (simp add: filter_id_conv)
    with True show ?thesis
      by (simp add: splice1_def)
  next
    case False
    with Cons.prems have mem: "ps_ref p \<in> ps_ref ` set qs" and d: "distinct (map ps_ref qs)"
      by auto
    from mem have f: "indexOf qs p > - 1"
      by (simp add: indexOf_found_iff)
    then have "nat (indexOf qs p + 1) = Suc (nat (indexOf qs p))"
      using indexOf_nonneg [OF f] by simp
    with False f Cons.IH [OF d mem] show ?thesis
      by (simp add: Let_def splice1_Cons)
  qed
qed

subsection \<open>Removing and stopping\<close>

lemma removePlayingSound_registered:
  assumes "distinct (map ps_ref (playingSounds s))" and "ps_ref p \<in> ps_ref ` set (playingSounds s)"
  shows "removePlayingSound p s =
    (Inr (), s\<lparr>playingSounds := filter (\<lambda>q. ps_ref q \<noteq> ps_ref p) (playingSounds s),
               dispatchedEvents := dispatchedEvents s @ [PLAYING_SOUNDS_UPDATED]\<rparr>)"
  using assms
  by (simp add: removePlayingSound_def Let_def indexOf_found_iff splice1_indexOf dispatchEvent_def)


lemma forEachStop_registered:
  assumes "distinct (map ps_ref (playingSounds s))" and "distinct (map ps_ref ms)"
    and "ps_ref ` set ms \<subseteq> ps_ref ` set (playingSounds s)"
  shows "forEachStop ms s =
    (Inr (), s\<lparr>playingSounds := filter (\<lambda>q. ps_ref q \<notin> ps_ref ` set ms) (playingSounds s),
               dispatchedEvents := dispatchedEvents s @ replicate (length ms) PLAYING_SOUNDS_UPDATED\<rparr>)"
  using assms
proof (induction ms arbitrary: s)
  case Nil
  then show ?case by simp
next
  case (Cons m ms)
  let ?s1 = "s\<lparr>playingSounds := filter (\<lambda>q. ps_ref q \<noteq> ps_ref m) (playingSounds s),
               dispatchedEvents := dispatchedEvents s @ [PLAYING_SOUNDS_UPDATED]\<rparr>"
  from Cons.prems have st: "stop m s = (Inr (), ?s1)"
    by (simp add: stop_def indexOf_found_iff removePlayingSound_registered)
  have d1: "distinct (map ps_ref (playingSounds ?s1))"
    using Cons.prems(1) by (simp add: distinct_map_filter)
  have d2: "distinct (map ps_ref ms)"
    using Cons.prems(2) by simp
  have sub: "ps_ref ` set ms \<subseteq> ps_ref ` set (playingSounds ?s1)"
  proof
    fix r assume r: "r \<in> ps_ref ` set ms"
    with Cons.prems(3) obtain q where q: "q \<in> set (playingSounds s)" "ps_ref q = r"
      by auto
    from r Cons.prems(2) have "r \<noteq> ps_ref m"
      by (auto simp: image_iff)
    with q show "r \<in> ps_ref ` set (playingSounds ?s1)"
      by auto
  qed
  have "forEachStop (m # ms) s = forEachStop ms ?s1"
    by (simp add: st)
  also have "\<dots> = (Inr (), ?s1\<lparr>playingSounds := filter (\<lambda>q. ps_ref q \<notin> ps_ref ` set ms) (playingSounds ?s1),
               dispatchedEvents := dispatchedEvents ?s1 @ replicate (length ms) PLAYING_SOUNDS_UPDATED\<rparr>)"
    by (rule Cons.IH [OF d1 d2 sub])
  also have "\<dots> = (Inr (), s\<lparr>playingSounds := filter (\<lambda>q. ps_ref q \<notin> ps_ref ` set (m # ms)) (playingSounds s),
               dispatchedEvents := dispatchedEvents s @ replicate (length (m # ms)) PLAYING_SOUNDS_UPDATED\<rparr>)"
    by (auto intro: filter_cong simp: conj_commute)
  finally show ?case .
qed

lemma filter_refs_of_filter:
  assumes "distinct (map ps_ref xs)"
  shows "filter (\<lambda>q. ps_ref q \<notin> ps_ref ` set (filter P xs)) xs = filter (\<lambda>q. \<not> P q) xs"
proof (rule filter_cong [OF refl])
  fix q assume q: "q \<in> set xs"
  from assms have inj: "inj_on ps_ref (set xs)"
    by (simp add: distinct_map)
  show "(ps_ref q \<notin> ps_ref ` set (filter P xs)) = (\<not> P q)"
  proof
    assume a: "ps_ref q \<notin> ps_ref ` set (filter P xs)"
    show "\<not> P q"
    proof
      assume "P q"
      with q have "q \<in> set (filter P xs)" by simp
      with a show False by blast
    qed
  next
    assume n: "\<not> P q"
    show "ps_ref q \<notin> ps_ref ` set (filter P xs)"
    proof
      assume "ps_ref q \<in> ps_ref ` set (filter P xs)"
      then obtain r where r: "r \<in> set xs" "P r" "ps_ref r = ps_ref q" by auto
      with inj q have "r = q" by (auto dest: inj_onD)
      with r n show False by simp
    qed
  qed
qed

lemma stopAll_resolved:
  assumes "distinct (map ps_ref (playingSounds s))"
    and "getOptionalChannelByNameOrInstance sel s = Inr tgt"
  shows "stopAll sel s =
    (Inr (), s\<lparr>playingSounds := filter (\<lambda>q. \<not> onChannel tgt q) (playingSounds s),
               dispatchedEvents := dispatchedEvents s @
                 replicate (length (filter (onChannel tgt) (playingSounds s))) PLAYING_SOUNDS_UPDATED\<rparr>)"
proof -
  let ?ms = "filter (onChannel tgt) (playingSounds s)"
  have d: "distinct (map ps_ref ?ms)"
    using assms(1) by (simp add: distinct_map_filter)
  have sub: "ps_ref ` set ?ms \<subseteq> ps_ref ` set (playingSounds s)"
    by auto
  have "stopAll sel s = forEachStop ?ms s"
    using assms(2) by (simp add: stopAll_def)
  also note forEachStop_registered [OF assms(1) d sub]
  finally show ?thesis
    by (simp only: filter_refs_of_filter [OF assms(1)])
qed

lemma stopAll_unresolved:
  "getOptionalChannelByNameOrInstance sel s = Inl e \<Longrightarrow> stopAll sel s = (Inl e, s)"
  by (simp add: stopAll_def)


subsection \<open>The invariant is kept by every operation\<close>


lemma resolve_nextRef:
  "getOptionalChannelByNameOrInstance sel (s\<lparr>nextRef := n\<rparr>) =
   getOptionalChannelByNameOrInstance sel s"
  by (simp add: getOptionalChannelByNameOrInstance_def
      split: option.splits ChannelSelector.splits)

text \<open>Removal keeps what the invariant needs, whether it succeeds or throws.\<close>

lemma removePlayingSound_cases:
  "removePlayingSound p s = (Inl NotRegistered, s) \<or>
   (\<exists>i. removePlayingSound p s =
      (Inr (), s\<lparr>playingSounds := splice1 i (playingSounds s),
                 dispatchedEvents := dispatchedEvents s @ [PLAYING_SOUNDS_UPDATED]\<rparr>))"
  by (auto simp: removePlayingSound_def Let_def dispatchEvent_def)

















subsection \<open>The example mixer, evaluated\<close>

lemma exampleMixer_eq:
  "exampleMixer =
     \<lparr>getSampleByName = exampleSamples,
      channelsByName = [''fx'' \<mapsto> fxChannel, ''music'' \<mapsto> musicChannel],
      playingSounds =
        [\<lparr>ps_ref = 2, ps_sound = Sound ''a'', ps_channel = Some (Chan fxChannel)\<rparr>,
         \<lparr>ps_ref = 3, ps_sound = Sound ''a'', ps_channel = Some (Chan musicChannel)\<rparr>,
         \<lparr>ps_ref = 4, ps_sound = Sound ''b'', ps_channel = None\<rparr>],
      dispatchedEvents =
        [CHANNELS_UPDATED, CHANNELS_UPDATED, PLAYING_SOUNDS_UPDATED, PLAYING_SOUNDS_UPDATED,
         PLAYING_SOUNDS_UPDATED],
      nextRef = 5\<rparr>"
  by (simp add: exampleMixer_def fxChannel_def musicChannel_def createChannel_def
      newChannel_def getProperty_def objectPrototypeKeys_def dispatchEvent_def play_def
      newPlayingSound_def getOptionalChannelByNameOrInstance_def isMonophonic_def stopAll_def
      newChannels_def exampleSamples_def)

lemma registry_ok_exampleMixer: "registry_ok exampleMixer"
  by (simp add: exampleMixer_eq registry_ok_def)

lemma resolve_fx:
  "getOptionalChannelByNameOrInstance (Some (ByName ''fx'')) exampleMixer =
     Inr (Some (Chan fxChannel))"
  by (simp add: exampleMixer_eq getOptionalChannelByNameOrInstance_def getProperty_def)

section \<open>Creating channels\<close>

text \<open>
  C7. \<open>createChannel\<close> rejects the blank name with \<open>InvalidArgument\<close> and a name under
  which a channel is registered with \<open>DuplicateChannel\<close>. Whenever it fails, the mixer is
  left as it was: the registered channels, and so their number, are unchanged. When it
  succeeds, the name was neither blank nor registered, and the new channel, carrying that
  name, is registered under it, the other entries staying as they were.
  (A name inherited from \<^verbatim>\<open>Object.prototype\<close> is rejected as a duplicate too; the mixer is
  unchanged there as well.)
\<close>

theorem createChannel_checks:
  "(name = [] \<longrightarrow> createChannel name ty s = (Inl InvalidArgument, s)) \<and>
   (name \<noteq> [] \<and> name \<in> dom (channelsByName s) \<longrightarrow>
      createChannel name ty s = (Inl DuplicateChannel, s)) \<and>
   (\<forall>e. fst (createChannel name ty s) = Inl e \<longrightarrow> snd (createChannel name ty s) = s) \<and>
   (\<forall>c. fst (createChannel name ty s) = Inr c \<longrightarrow>
      name \<noteq> [] \<and> name \<notin> dom (channelsByName s) \<and> channel_name c = name \<and>
      channelsByName (snd (createChannel name ty s)) = (channelsByName s)(name \<mapsto> c) \<and>
      dom (channelsByName (snd (createChannel name ty s))) = insert name (dom (channelsByName s)))"
  by (auto simp: createChannel_def newChannel_def getProperty_def dispatchEvent_def Let_def
      split: option.splits if_splits)

theorem createChannel_checks_witness:
  "createChannel [] None exampleMixer = (Inl InvalidArgument, exampleMixer) \<and>
   ''fx'' \<in> dom (channelsByName exampleMixer) \<and>
   createChannel ''fx'' (Some Polyphonic) exampleMixer = (Inl DuplicateChannel, exampleMixer) \<and>
   fst (createChannel ''voice'' None exampleMixer) =
     Inr \<lparr>channel_ref = 5, channel_name = ''voice'', channel_type = Polyphonic\<rparr> \<and>
   channelsByName (snd (createChannel ''voice'' None exampleMixer)) ''voice'' =
     Some \<lparr>channel_ref = 5, channel_name = ''voice'', channel_type = Polyphonic\<rparr>"
proof -
  have c: "fst (createChannel ''voice'' None exampleMixer) =
     Inr \<lparr>channel_ref = 5, channel_name = ''voice'', channel_type = Polyphonic\<rparr>"
    by (simp add: exampleMixer_eq createChannel_def newChannel_def getProperty_def
        objectPrototypeKeys_def dispatchEvent_def)
  have d: "''fx'' \<in> dom (channelsByName exampleMixer)"
    by (simp add: exampleMixer_eq)
  from c d createChannel_checks [of "[]" None exampleMixer]
    createChannel_checks [of "''fx''" "Some Polyphonic" exampleMixer]
    createChannel_checks [of "''voice''" None exampleMixer]
  show ?thesis by simp
qed

section \<open>Playing\<close>

text \<open>
  An unknown sound fails with \<open>SampleNotFound\<close>, and a channel name that is neither
  registered nor inherited fails with \<open>ChannelNotFound\<close>; the mixer is unchanged in both
  cases.
\<close>

lemma play_unknown_sound:
  "getSampleByName s name = None \<Longrightarrow> play name sel s = (Inl SampleNotFound, s)"
  by (simp add: play_def)

lemma play_unknown_channel:
  "getSampleByName s name = Some sample \<Longrightarrow> channelsByName s n = None \<Longrightarrow>
   n \<notin> set objectPrototypeKeys \<Longrightarrow>
   play name (Some (ByName n)) s = (Inl ChannelNotFound, s)"
  by (simp add: play_def getOptionalChannelByNameOrInstance_def getProperty_def)

text \<open>
  C6. A play request with a channel name that matches no registered channel is to fail
  with \<open>ChannelNotFound\<close> and to register nothing. The code does not do this for a name
  that \<^verbatim>\<open>{}\<close> inherits: on a fresh mixer holding the sample \<open>a\<close> and no channel at all,
  \<open>play("a", {channel: "constructor"})\<close> returns a playing sound, whose channel is the
  inherited member, and registers it.
\<close>

theorem play_inherited_channel_name:
  "channelsByName (newChannels exampleSamples) ''constructor'' = None \<and>
   fst (play ''a'' (Some (ByName ''constructor'')) (newChannels exampleSamples)) =
     Inr \<lparr>ps_ref = 0, ps_sound = Sound ''a'', ps_channel = Some (Inherited ''constructor'')\<rparr> \<and>
   playingSounds (snd (play ''a'' (Some (ByName ''constructor'')) (newChannels exampleSamples))) =
     [\<lparr>ps_ref = 0, ps_sound = Sound ''a'', ps_channel = Some (Inherited ''constructor'')\<rparr>]"
  by (simp add: play_def getOptionalChannelByNameOrInstance_def getProperty_def
      objectPrototypeKeys_def newChannels_def exampleSamples_def newPlayingSound_def
      isMonophonic_def dispatchEvent_def)

section \<open>Stopping all sounds of a channel\<close>

text \<open>What a selector resolves to, and what the filter of \<open>stopAll\<close> then selects.\<close>

lemma resolve_instance:
  "getOptionalChannelByNameOrInstance (Some (ByInstance c)) s = Inr (Some (Chan c))"
  by (simp add: getOptionalChannelByNameOrInstance_def)

lemma resolve_registered:
  "channelsByName s n = Some c \<Longrightarrow>
   getOptionalChannelByNameOrInstance (Some (ByName n)) s = Inr (Some (Chan c))"
  by (simp add: getOptionalChannelByNameOrInstance_def getProperty_def)

lemma resolve_none: "getOptionalChannelByNameOrInstance None s = Inr None"
  by (simp add: getOptionalChannelByNameOrInstance_def)

lemma onChannel_Chan: "onChannel (Some (Chan c)) p = soundOfChannel c p"
  by (simp add: onChannel_def soundOfChannel_def split: option.splits ChannelValue.splits)

lemma onChannel_None: "onChannel None p"
  by (simp add: onChannel_def)

lemma stopAll_channel:
  assumes "registry_ok s"
    and "getOptionalChannelByNameOrInstance sel s = Inr (Some (Chan c))"
  shows "stopAll sel s =
    (Inr (), s\<lparr>playingSounds := filter (\<lambda>p. \<not> soundOfChannel c p) (playingSounds s),
               dispatchedEvents := dispatchedEvents s @
                 replicate (length (filter (soundOfChannel c) (playingSounds s)))
                   PLAYING_SOUNDS_UPDATED\<rparr>)"
proof -
  from assms(1) have d: "distinct (map ps_ref (playingSounds s))"
    by (simp add: registry_ok_def)
  have on: "onChannel (Some (Chan c)) = soundOfChannel c"
    by (rule ext) (rule onChannel_Chan)
  show ?thesis
    using stopAll_resolved [OF d assms(2)] by (simp only: on)
qed

lemma stopAll_unknown_name:
  "channelsByName s n = None \<Longrightarrow> n \<notin> set objectPrototypeKeys \<Longrightarrow>
   stopAll (Some (ByName n)) s = (Inl ChannelNotFound, s)"
  by (simp add: stopAll_def getOptionalChannelByNameOrInstance_def getProperty_def)

lemma stopAll_keeps_channels: "channelsByName (snd (stopAll sel s)) = channelsByName s"
proof (cases "getOptionalChannelByNameOrInstance sel s")
  case (Inl e)
  then show ?thesis by (simp add: stopAll_def)
next
  case (Inr target)
  have "channelsByName (snd (forEachStop ms t)) = channelsByName t" for ms t
  proof (induction ms arbitrary: t)
    case Nil
    then show ?case by simp
  next
    case (Cons m ms)
    have one: "channelsByName (snd (stop m t)) = channelsByName t"
      using removePlayingSound_cases [of m t] by (auto simp: stop_def)
    obtain r t1 where st: "stop m t = (r, t1)"
      by (cases "stop m t")
    with one have "channelsByName t1 = channelsByName t" by simp
    with st Cons.IH [of t1] show ?case
      by (cases r) simp_all
  qed
  with Inr show ?thesis by (simp add: stopAll_def)
qed

text \<open>
  C8. On a registry that lists no playing sound twice, \<open>stopAll\<close> for a channel \<open>c\<close>, given
  as the instance or by the name it is registered under, returns normally and removes
  from the registry exactly the playing sounds whose channel is \<open>c\<close> (one
  \<^verbatim>\<open>PLAYING_SOUNDS_UPDATED\<close> each): what is left are the sounds on other channels and on
  the master output, as they were and in their order. With no selector every playing
  sound is removed. The registered channels are never touched. Where the sounds of the
  object \<open>c\<close> all carry \<open>c\<close> as their channel, the sounds left are those whose channel is
  not \<open>c\<close>.
\<close>

theorem stopAll_scoped:
  assumes "registry_ok s"
  shows "fst (stopAll (Some (ByInstance c)) s) = Inr () \<and>
         playingSounds (snd (stopAll (Some (ByInstance c)) s)) =
           filter (\<lambda>p. \<not> soundOfChannel c p) (playingSounds s) \<and>
         dispatchedEvents (snd (stopAll (Some (ByInstance c)) s)) =
           dispatchedEvents s @
           replicate (length (filter (soundOfChannel c) (playingSounds s)))
             PLAYING_SOUNDS_UPDATED \<and>
         (channelsByName s n = Some c \<longrightarrow>
            fst (stopAll (Some (ByName n)) s) = Inr () \<and>
            playingSounds (snd (stopAll (Some (ByName n)) s)) =
              filter (\<lambda>p. \<not> soundOfChannel c p) (playingSounds s)) \<and>
         ((\<forall>p \<in> set (playingSounds s). soundOfChannel c p \<longrightarrow> ps_channel p = Some (Chan c)) \<longrightarrow>
            playingSounds (snd (stopAll (Some (ByInstance c)) s)) =
              filter (\<lambda>p. ps_channel p \<noteq> Some (Chan c)) (playingSounds s)) \<and>
         fst (stopAll None s) = Inr () \<and>
         playingSounds (snd (stopAll None s)) = [] \<and>
         channelsByName (snd (stopAll sel s)) = channelsByName s"
proof -
  note inst = stopAll_channel [OF assms resolve_instance, of c]
  have i1: "fst (stopAll (Some (ByInstance c)) s) = Inr ()"
    by (simp add: inst)
  have i2: "playingSounds (snd (stopAll (Some (ByInstance c)) s)) =
      filter (\<lambda>p. \<not> soundOfChannel c p) (playingSounds s)"
    by (simp add: inst)
  have i3: "dispatchedEvents (snd (stopAll (Some (ByInstance c)) s)) =
      dispatchedEvents s @
      replicate (length (filter (soundOfChannel c) (playingSounds s))) PLAYING_SOUNDS_UPDATED"
    by (simp add: inst)
  have nm: "fst (stopAll (Some (ByName n)) s) = Inr () \<and>
      playingSounds (snd (stopAll (Some (ByName n)) s)) =
        filter (\<lambda>p. \<not> soundOfChannel c p) (playingSounds s)"
    if "channelsByName s n = Some c"
    by (simp add: stopAll_channel [OF assms resolve_registered [OF that]])
  have eq: "playingSounds (snd (stopAll (Some (ByInstance c)) s)) =
      filter (\<lambda>p. ps_channel p \<noteq> Some (Chan c)) (playingSounds s)"
    if own: "\<forall>p \<in> set (playingSounds s). soundOfChannel c p \<longrightarrow> ps_channel p = Some (Chan c)"
  proof -
    have "filter (\<lambda>p. \<not> soundOfChannel c p) (playingSounds s) =
        filter (\<lambda>p. ps_channel p \<noteq> Some (Chan c)) (playingSounds s)"
    proof (rule filter_cong [OF refl])
      fix p assume "p \<in> set (playingSounds s)"
      with own have "soundOfChannel c p \<longrightarrow> ps_channel p = Some (Chan c)" by blast
      moreover have "ps_channel p = Some (Chan c) \<longrightarrow> soundOfChannel c p"
        by (simp add: soundOfChannel_def)
      ultimately show "(\<not> soundOfChannel c p) = (ps_channel p \<noteq> Some (Chan c))" by blast
    qed
    with i2 show ?thesis by simp
  qed
  from assms have d: "distinct (map ps_ref (playingSounds s))"
    by (simp add: registry_ok_def)
  note all = stopAll_resolved [OF d resolve_none]
  have a1: "fst (stopAll None s) = Inr ()"
    by (simp add: all)
  have a2: "playingSounds (snd (stopAll None s)) = []"
    by (simp add: all onChannel_None)
  from i1 i2 i3 nm eq a1 a2 stopAll_keeps_channels [of sel s] show ?thesis
    by blast
qed

theorem stopAll_scoped_witness:
  "registry_ok exampleMixer \<and>
   playingSounds (snd (stopAll (Some (ByInstance musicChannel)) exampleMixer)) =
     [\<lparr>ps_ref = 2, ps_sound = Sound ''a'', ps_channel = Some (Chan fxChannel)\<rparr>,
      \<lparr>ps_ref = 4, ps_sound = Sound ''b'', ps_channel = None\<rparr>] \<and>
   channelsByName exampleMixer ''fx'' = Some fxChannel \<and>
   playingSounds (snd (stopAll (Some (ByName ''fx'')) exampleMixer)) =
     [\<lparr>ps_ref = 3, ps_sound = Sound ''a'', ps_channel = Some (Chan musicChannel)\<rparr>,
      \<lparr>ps_ref = 4, ps_sound = Sound ''b'', ps_channel = None\<rparr>] \<and>
   playingSounds (snd (stopAll None exampleMixer)) = []"
proof -
  have fx: "channelsByName exampleMixer ''fx'' = Some fxChannel"
    by (simp add: exampleMixer_eq)
  have f1: "filter (\<lambda>p. \<not> soundOfChannel musicChannel p) (playingSounds exampleMixer) =
     [\<lparr>ps_ref = 2, ps_sound = Sound ''a'', ps_channel = Some (Chan fxChannel)\<rparr>,
      \<lparr>ps_ref = 4, ps_sound = Sound ''b'', ps_channel = None\<rparr>]"
    by (simp add: exampleMixer_eq soundOfChannel_def fxChannel_def musicChannel_def)
  have f2: "filter (\<lambda>p. \<not> soundOfChannel fxChannel p) (playingSounds exampleMixer) =
     [\<lparr>ps_ref = 3, ps_sound = Sound ''a'', ps_channel = Some (Chan musicChannel)\<rparr>,
      \<lparr>ps_ref = 4, ps_sound = Sound ''b'', ps_channel = None\<rparr>]"
    by (simp add: exampleMixer_eq soundOfChannel_def fxChannel_def musicChannel_def)
  from stopAll_scoped [OF registry_ok_exampleMixer, where c = musicChannel]
    stopAll_scoped [OF registry_ok_exampleMixer, where c = fxChannel and n = "''fx''"]
    fx f1 f2 registry_ok_exampleMixer
  show ?thesis by simp
qed

section \<open>Voice stealing on a monophonic channel\<close>

lemma filter_onChannel_snoc:
  "onChannel t p \<Longrightarrow> filter (onChannel t) (filter (\<lambda>q. \<not> onChannel t q) xs @ [p]) = [p]"
  by (induction xs) simp_all

text \<open>
  C1. A play request whose sound exists and whose channel resolves to a monophonic
  channel: the new playing sound is constructed, then \<open>stopAll\<close> for that channel runs and
  returns, leaving no sound of that channel registered, and only then is the new sound
  appended. After the call the new sound is the one and only registered sound on that
  channel; it was not registered before.
\<close>

theorem play_monophonic_steals:
  assumes "registry_ok s"
    and "getSampleByName s name = Some sample"
    and "getOptionalChannelByNameOrInstance sel s = Inr (Some (Chan c))"
    and "channel_type c = Monophonic"
  shows "\<exists>p s1 s2.
      newPlayingSound sample (Some (Chan c)) s = (p, s1) \<and>
      stopAll sel s1 = (Inr (), s2) \<and>
      playingSounds s2 = filter (\<lambda>q. \<not> onChannel (Some (Chan c)) q) (playingSounds s) \<and>
      play name sel s =
        (Inr p, dispatchEvent PLAYING_SOUNDS_UPDATED
                  (s2\<lparr>playingSounds := playingSounds s2 @ [p]\<rparr>)) \<and>
      ps_sound p = sample \<and> ps_channel p = Some (Chan c) \<and>
      ps_ref p \<notin> ps_ref ` set (playingSounds s) \<and>
      filter (onChannel (Some (Chan c))) (playingSounds (snd (play name sel s))) = [p]"
proof -
  let ?t = "Some (Chan c)"
  let ?p = "\<lparr>ps_ref = nextRef s, ps_sound = sample, ps_channel = ?t\<rparr>"
  let ?s1 = "s\<lparr>nextRef := Suc (nextRef s)\<rparr>"
  let ?s2 = "?s1\<lparr>playingSounds := filter (\<lambda>q. \<not> onChannel ?t q) (playingSounds ?s1),
      dispatchedEvents := dispatchedEvents ?s1 @
        replicate (length (filter (onChannel ?t) (playingSounds ?s1))) PLAYING_SOUNDS_UPDATED\<rparr>"
  have new: "newPlayingSound sample ?t s = (?p, ?s1)"
    by (simp add: newPlayingSound_def)
  from assms(1) have d: "distinct (map ps_ref (playingSounds ?s1))"
    by (simp add: registry_ok_def)
  from assms(3) have res: "getOptionalChannelByNameOrInstance sel ?s1 = Inr ?t"
    by (simp add: resolve_nextRef)
  have st: "stopAll sel ?s1 = (Inr (), ?s2)"
    by (rule stopAll_resolved [OF d res])
  have ps2: "playingSounds ?s2 = filter (\<lambda>q. \<not> onChannel ?t q) (playingSounds s)"
    by simp
  from assms(4) have mono: "isMonophonic ?t"
    by (simp add: isMonophonic_def)
  have pl: "play name sel s =
      (Inr ?p, dispatchEvent PLAYING_SOUNDS_UPDATED
                 (?s2\<lparr>playingSounds := playingSounds ?s2 @ [?p]\<rparr>))"
    unfolding play_def using assms(2,3) new mono st by simp
  have fresh: "ps_ref ?p \<notin> ps_ref ` set (playingSounds s)"
    using assms(1) by (auto simp: registry_ok_def)
  have on: "onChannel ?t ?p"
    by (simp add: onChannel_def)
  have "playingSounds (snd (play name sel s)) =
      filter (\<lambda>q. \<not> onChannel ?t q) (playingSounds s) @ [?p]"
    unfolding pl by (simp add: dispatchEvent_def)
  then have sole: "filter (onChannel ?t) (playingSounds (snd (play name sel s))) = [?p]"
    using filter_onChannel_snoc [OF on] by simp
  have "ps_sound ?p = sample" "ps_channel ?p = ?t"
    by simp_all
  with new st ps2 pl fresh sole show ?thesis
    by blast
qed

theorem play_monophonic_steals_witness:
  "registry_ok exampleMixer \<and>
   getSampleByName exampleMixer ''b'' = Some (Sound ''b'') \<and>
   getOptionalChannelByNameOrInstance (Some (ByName ''fx'')) exampleMixer =
     Inr (Some (Chan fxChannel)) \<and>
   channel_type fxChannel = Monophonic \<and>
   filter (onChannel (Some (Chan fxChannel))) (playingSounds exampleMixer) =
     [\<lparr>ps_ref = 2, ps_sound = Sound ''a'', ps_channel = Some (Chan fxChannel)\<rparr>] \<and>
   filter (onChannel (Some (Chan fxChannel)))
     (playingSounds (snd (play ''b'' (Some (ByName ''fx'')) exampleMixer))) =
     [\<lparr>ps_ref = 5, ps_sound = Sound ''b'', ps_channel = Some (Chan fxChannel)\<rparr>]"
proof -
  have b: "getSampleByName exampleMixer ''b'' = Some (Sound ''b'')"
    by (simp add: exampleMixer_eq exampleSamples_def)
  have m: "channel_type fxChannel = Monophonic"
    by (simp add: fxChannel_def)
  have before: "filter (onChannel (Some (Chan fxChannel))) (playingSounds exampleMixer) =
     [\<lparr>ps_ref = 2, ps_sound = Sound ''a'', ps_channel = Some (Chan fxChannel)\<rparr>]"
    by (simp add: exampleMixer_eq onChannel_def fxChannel_def musicChannel_def)
  have n: "fst (newPlayingSound (Sound ''b'') (Some (Chan fxChannel)) exampleMixer) =
     \<lparr>ps_ref = 5, ps_sound = Sound ''b'', ps_channel = Some (Chan fxChannel)\<rparr>"
    by (simp add: newPlayingSound_def exampleMixer_eq)
  from play_monophonic_steals [OF registry_ok_exampleMixer b resolve_fx m] n
  have "filter (onChannel (Some (Chan fxChannel)))
     (playingSounds (snd (play ''b'' (Some (ByName ''fx'')) exampleMixer))) =
     [\<lparr>ps_ref = 5, ps_sound = Sound ''b'', ps_channel = Some (Chan fxChannel)\<rparr>]"
    by auto
  with registry_ok_exampleMixer b resolve_fx m before show ?thesis
    by simp
qed

section \<open>Removing a playing sound exactly once\<close>






end
